theory Spec2Isabelle
  imports Complex_Main "HOL-Library.Word"
begin

section \<open>The random source\<close>

text \<open>
  Both modules draw every hit roll from Python's process-wide generator:
  \<^verbatim>\<open>random.choice(seq)\<close> is \<^verbatim>\<open>seq[_randbelow(len(seq))]\<close> and
  \<^verbatim>\<open>random.randint(0, 5)\<close> is \<^verbatim>\<open>_randbelow(6)\<close>. A value of \<open>face\<close> is one
  result of \<^verbatim>\<open>_randbelow(6)\<close>; the state of the generator is modelled by the infinite
  sequence of results it is going to deliver, and drawing removes the head.
\<close>

datatype face = F0 | F1 | F2 | F3 | F4 | F5

fun idx :: "face \<Rightarrow> nat" where
  "idx F0 = 0"
| "idx F1 = 1"
| "idx F2 = 2"
| "idx F3 = 3"
| "idx F4 = 4"
| "idx F5 = 5"

definition faces :: "face list" where
  "faces = [F0, F1, F2, F3, F4, F5]"

type_synonym rng = "nat \<Rightarrow> face"

definition randbelow6 :: "rng \<Rightarrow> nat \<times> rng" where
  "randbelow6 g = (idx (g 0), \<lambda>i. g (Suc i))"

text \<open>The generator that delivers \<open>d\<close> first and then behaves as \<open>g\<close>.\<close>

definition feed :: "face \<Rightarrow> rng \<Rightarrow> rng" where
  "feed d g = (\<lambda>i. case i of 0 \<Rightarrow> d | Suc j \<Rightarrow> g j)"

text \<open>
  Expectation of \<open>f\<close> when the next \<open>k\<close> results are independent and uniform over the
  six faces, and the generator continues as \<open>g\<close> afterwards.
\<close>

fun expect :: "nat \<Rightarrow> (rng \<Rightarrow> real) \<Rightarrow> rng \<Rightarrow> real" where
  "expect 0 f g = f g"
| "expect (Suc k) f g = (\<Sum>d\<leftarrow>faces. expect k (\<lambda>t. f (feed d t)) g) / 6"

section \<open>battle\_sim.py: the plain resolver\<close>

record ship =
  initiative :: int
  hull_pts :: int
  computer :: int
  shield :: int
  missiles :: "int list"
  cannons :: "int list"

definition destroyed :: "ship \<Rightarrow> bool" where
  "destroyed self = (hull_pts self \<le> 0)"

definition take_dmg :: "ship \<Rightarrow> int \<Rightarrow> ship" where
  "take_dmg self dmg = self\<lparr>hull_pts := hull_pts self - dmg\<rparr>"

text \<open>The six values \<^verbatim>\<open>_roll\<close> chooses from: two strings and four numbers.\<close>

datatype roll_value = NoDamage | Num int | FullHit

definition choices :: "roll_value list" where
  "choices = [NoDamage, Num 2, Num 3, Num 4, Num 5, FullHit]"

definition roll :: "rng \<Rightarrow> roll_value \<times> rng" where
  "roll g = (case randbelow6 g of (i, g') \<Rightarrow> (choices ! i, g'))"

fun hit :: "ship \<Rightarrow> roll_value \<Rightarrow> int \<Rightarrow> bool" where
  "hit self NoDamage target_shield = False"
| "hit self FullHit target_shield = True"
| "hit self (Num r) target_shield = (r + computer self - target_shield \<ge> 6)"

text \<open>
  \<^verbatim>\<open>_fire\<close> mutates the target only; the model returns the target, the generator
  and, as a log, the rolls that were drawn.
\<close>

fun fire :: "ship \<Rightarrow> ship \<Rightarrow> int list \<Rightarrow> rng \<Rightarrow> ship \<times> rng \<times> roll_value list" where
  "fire self target [] g = (target, g, [])"
| "fire self target (dmg # weapon) g =
     (case roll g of (r, g1) \<Rightarrow>
        if hit self r (shield target) then
          (let target1 = take_dmg target dmg in
           if destroyed target1 then (target1, g1, [r])
           else (case fire self target1 weapon g1 of (t, g2, rs) \<Rightarrow> (t, g2, r # rs)))
        else (case fire self target weapon g1 of (t, g2, rs) \<Rightarrow> (t, g2, r # rs)))"

text \<open>
  One entry of the log per call of \<^verbatim>\<open>_fire\<close>: who fired, the hull the shooter had
  at that moment, which weapon list, and the rolls drawn for it.
\<close>

datatype side = A | B

datatype weapon_list = Missiles | Cannons

record volley =
  shooter :: side
  shooter_hull :: int
  weapon_list :: weapon_list
  drawn :: "roll_value list"

text \<open>
  The result of one trial. \<open>outcome\<close> is \<open>None\<close> when the cannon loop was still running
  after \<open>fuel\<close> rounds; otherwise it is the returned integer.
\<close>

record run =
  outcome :: "int option"
  ship_a :: ship
  ship_b :: ship
  rng_after :: rng
  trace :: "volley list"

definition logged :: "volley \<Rightarrow> run \<Rightarrow> run" where
  "logged v r = r\<lparr>trace := v # trace r\<rparr>"

definition side_of :: "bool \<Rightarrow> side" where
  "side_of is_a = (if is_a then A else B)"

text \<open>
  The \<^verbatim>\<open>while\<close> loop of \<^verbatim>\<open>_simulate_once\<close>. \<open>first\<close> and \<open>second\<close> alias \<open>a\<close> and
  \<open>b\<close>: \<open>a\<close> is \<open>first\<close> exactly when \<open>a_first\<close>. The Boolean of the result tells whether
  the loop was left (by its condition or by \<^verbatim>\<open>break\<close>) within \<open>fuel\<close> rounds.
\<close>

fun cannon_phase ::
  "nat \<Rightarrow> bool \<Rightarrow> ship \<Rightarrow> ship \<Rightarrow> rng \<Rightarrow> bool \<times> ship \<times> ship \<times> rng \<times> volley list" where
  "cannon_phase 0 a_first first second g =
     (if \<not> destroyed (if a_first then first else second)
         \<and> \<not> destroyed (if a_first then second else first)
      then (False, first, second, g, [])
      else (True, first, second, g, []))"
| "cannon_phase (Suc fuel) a_first first second g =
     (if \<not> destroyed (if a_first then first else second)
         \<and> \<not> destroyed (if a_first then second else first)
      then
        (case fire first second (cannons first) g of (second1, g1, rs1) \<Rightarrow>
           let v1 = \<lparr>shooter = side_of a_first, shooter_hull = hull_pts first,
                     weapon_list = Cannons, drawn = rs1\<rparr>
           in if destroyed second1 then (True, first, second1, g1, [v1])
              else
                (case fire second1 first (cannons second1) g1 of (first1, g2, rs2) \<Rightarrow>
                   let v2 = \<lparr>shooter = side_of (\<not> a_first), shooter_hull = hull_pts second1,
                             weapon_list = Cannons, drawn = rs2\<rparr>
                   in (case cannon_phase fuel a_first first1 second1 g2 of
                         (left, f, s, g3, tr) \<Rightarrow> (left, f, s, g3, v1 # v2 # tr))))
      else (True, first, second, g, []))"

text \<open>The cannon phase and the two final \<^verbatim>\<open>return\<close> statements.\<close>

definition cannons_and_verdict :: "nat \<Rightarrow> bool \<Rightarrow> ship \<Rightarrow> ship \<Rightarrow> rng \<Rightarrow> run" where
  "cannons_and_verdict fuel a_first first second g =
     (case cannon_phase fuel a_first first second g of (left, f, s, g1, tr) \<Rightarrow>
        let a = (if a_first then f else s); b = (if a_first then s else f)
        in \<lparr>outcome =
              (if \<not> left then None
               else if destroyed a \<and> destroyed b then Some 0
               else Some (if \<not> destroyed a then 1 else - 1)),
            ship_a = a, ship_b = b, rng_after = g1, trace = tr\<rparr>)"

text \<open>The early \<^verbatim>\<open>return\<close> of the missile phase: \<open>winner_is_a\<close> is \<^verbatim>\<open>first is a\<close>
  (respectively \<^verbatim>\<open>second is a\<close>).\<close>

definition early_return :: "bool \<Rightarrow> bool \<Rightarrow> ship \<Rightarrow> ship \<Rightarrow> rng \<Rightarrow> run" where
  "early_return winner_is_a a_first first second g =
     \<lparr>outcome = Some (if winner_is_a then 1 else - 1),
      ship_a = (if a_first then first else second),
      ship_b = (if a_first then second else first),
      rng_after = g, trace = []\<rparr>"

text \<open>The second half of the missile phase, and what follows it.\<close>

definition second_missiles :: "nat \<Rightarrow> bool \<Rightarrow> ship \<Rightarrow> ship \<Rightarrow> rng \<Rightarrow> run" where
  "second_missiles fuel a_first first second g =
     (if missiles second \<noteq> [] then
        (case fire second first (missiles second) g of (first1, g1, rs) \<Rightarrow>
           logged \<lparr>shooter = side_of (\<not> a_first), shooter_hull = hull_pts second,
                   weapon_list = Missiles, drawn = rs\<rparr>
             (if destroyed first1 then early_return (\<not> a_first) a_first first1 second g1
              else cannons_and_verdict fuel a_first first1 second g1))
      else cannons_and_verdict fuel a_first first second g)"

definition simulate_once :: "nat \<Rightarrow> ship \<Rightarrow> ship \<Rightarrow> rng \<Rightarrow> run" where
  "simulate_once fuel a b g =
     (let a_first = (initiative a > initiative b);
          first = (if a_first then a else b);
          second = (if a_first then b else a)
      in if missiles first \<noteq> [] then
           (case fire first second (missiles first) g of (second1, g1, rs) \<Rightarrow>
              logged \<lparr>shooter = side_of a_first, shooter_hull = hull_pts first,
                      weapon_list = Missiles, drawn = rs\<rparr>
                (if destroyed second1 then early_return a_first a_first first second1 g1
                 else second_missiles fuel a_first first second1 g1))
         else second_missiles fuel a_first first second g)"

section \<open>battle\_sim\_numba.py: the pure-Python fallback\<close>

definition roll_hit_py :: "int \<Rightarrow> int \<Rightarrow> rng \<Rightarrow> bool \<times> rng" where
  "roll_hit_py comp_v shield_v g =
     (case randbelow6 g of (i, g') \<Rightarrow>
        let r = int i in
        if r = 0 then (False, g')
        else if r = 5 then (True, g')
        else (let val = r + 1 in (val + comp_v - shield_v \<ge> 6, g')))"

fun fire_sequence_py :: "int list \<Rightarrow> int \<Rightarrow> int \<Rightarrow> int \<Rightarrow> rng \<Rightarrow> int \<times> rng" where
  "fire_sequence_py [] comp_v enemy_shield enemy_hp g = (enemy_hp, g)"
| "fire_sequence_py (dmg # damage_seq) comp_v enemy_shield enemy_hp g =
     (case roll_hit_py comp_v enemy_shield g of (h, g1) \<Rightarrow>
        if h then
          (let enemy_hp1 = enemy_hp - dmg in
           if enemy_hp1 \<le> 0 then (enemy_hp1, g1)
           else fire_sequence_py damage_seq comp_v enemy_shield enemy_hp1 g1)
        else fire_sequence_py damage_seq comp_v enemy_shield enemy_hp g1)"

text \<open>
  The \<^verbatim>\<open>while True\<close> loop of \<^verbatim>\<open>_battle_once_py\<close>; \<open>None\<close> when it is still running
  after \<open>fuel\<close> rounds.
\<close>

fun cannon_loop_py ::
  "nat \<Rightarrow> ship \<Rightarrow> ship \<Rightarrow> bool \<Rightarrow> int \<Rightarrow> int \<Rightarrow> rng \<Rightarrow> (bool \<times> rng) option" where
  "cannon_loop_py 0 spec_a spec_b a_first a_hp b_hp g = None"
| "cannon_loop_py (Suc fuel) spec_a spec_b a_first a_hp b_hp g =
     (if a_first then
        (case fire_sequence_py (cannons spec_a) (computer spec_a) (shield spec_b) b_hp g of
           (b_hp1, g1) \<Rightarrow>
             if b_hp1 \<le> 0 then Some (True, g1)
             else
               (case fire_sequence_py (cannons spec_b) (computer spec_b) (shield spec_a) a_hp g1 of
                  (a_hp1, g2) \<Rightarrow>
                    if a_hp1 \<le> 0 then Some (False, g2)
                    else cannon_loop_py fuel spec_a spec_b a_first a_hp1 b_hp1 g2))
      else
        (case fire_sequence_py (cannons spec_b) (computer spec_b) (shield spec_a) a_hp g of
           (a_hp1, g1) \<Rightarrow>
             if a_hp1 \<le> 0 then Some (False, g1)
             else
               (case fire_sequence_py (cannons spec_a) (computer spec_a) (shield spec_b) b_hp g1 of
                  (b_hp1, g2) \<Rightarrow>
                    if b_hp1 \<le> 0 then Some (True, g2)
                    else cannon_loop_py fuel spec_a spec_b a_first a_hp1 b_hp1 g2)))"

definition battle_once_py :: "nat \<Rightarrow> ship \<Rightarrow> ship \<Rightarrow> rng \<Rightarrow> (bool \<times> rng) option" where
  "battle_once_py fuel spec_a spec_b g =
     (let a_hp = hull_pts spec_a; b_hp = hull_pts spec_b;
          a_first = (initiative spec_a > initiative spec_b)
      in if a_first then
           (case fire_sequence_py (missiles spec_a) (computer spec_a) (shield spec_b) b_hp g of
              (b_hp1, g1) \<Rightarrow>
                if b_hp1 \<le> 0 then Some (True, g1)
                else
                  (case fire_sequence_py (missiles spec_b) (computer spec_b) (shield spec_a) a_hp g1 of
                     (a_hp1, g2) \<Rightarrow>
                       if a_hp1 \<le> 0 then Some (False, g2)
                       else cannon_loop_py fuel spec_a spec_b a_first a_hp1 b_hp1 g2))
         else
           (case fire_sequence_py (missiles spec_b) (computer spec_b) (shield spec_a) a_hp g of
              (a_hp1, g1) \<Rightarrow>
                if a_hp1 \<le> 0 then Some (False, g1)
                else
                  (case fire_sequence_py (missiles spec_a) (computer spec_a) (shield spec_b) b_hp g1 of
                     (b_hp1, g2) \<Rightarrow>
                       if b_hp1 \<le> 0 then Some (True, g2)
                       else cannon_loop_py fuel spec_a spec_b a_first a_hp1 b_hp1 g2)))"

section \<open>battle\_sim\_numba.py: the compiled core\<close>







section \<open>The Monte Carlo drivers\<close>

text \<open>
  \<^verbatim>\<open>win_probability\<close> reads and changes the process-wide generator. Its state before
  the call is the argument \<open>g\<close>, its state after the call is returned with the result;
  \<open>seeded s\<close> is the state \<^verbatim>\<open>random.seed(s)\<close> installs. The quotient
  \<^verbatim>\<open>wins / simulations\<close> is modelled by the exact rational: the rounding to a double is
  a function of the two integers and is not modelled. The division is the only statement
  that can raise. The result is \<open>None\<close> when some trial was still running after \<open>fuel\<close>
  cannon rounds.
\<close>

datatype error = ZeroDivisionError

fun trials :: "nat \<Rightarrow> nat \<Rightarrow> ship \<Rightarrow> ship \<Rightarrow> rng \<Rightarrow> int \<Rightarrow> (int \<times> rng) option" where
  "trials fuel 0 spec_a spec_b g wins = Some (wins, g)"
| "trials fuel (Suc k) spec_a spec_b g wins =
     (let r = simulate_once fuel spec_a spec_b g in
      case outcome r of
        None \<Rightarrow> None
      | Some oc \<Rightarrow> trials fuel k spec_a spec_b (rng_after r) (wins + (if oc = 1 then 1 else 0)))"

definition win_probability ::
  "nat \<Rightarrow> (int \<Rightarrow> rng) \<Rightarrow> rng \<Rightarrow> ship \<Rightarrow> ship \<Rightarrow> int \<Rightarrow> int option \<Rightarrow> ((error + rat) \<times> rng) option" where
  "win_probability fuel seeded g spec_a spec_b simulations seed =
     (let g0 = (case seed of None \<Rightarrow> g | Some s \<Rightarrow> seeded s) in
      case trials fuel (nat simulations) spec_a spec_b g0 0 of
        None \<Rightarrow> None
      | Some (wins, g1) \<Rightarrow>
          Some (if simulations = 0 then Inl ZeroDivisionError
                else Inr (of_int wins / of_int simulations), g1))"

text \<open>The driver of battle\_sim\_numba.py on its pure-Python path (Numba not installed).\<close>

fun trials_py :: "nat \<Rightarrow> nat \<Rightarrow> ship \<Rightarrow> ship \<Rightarrow> rng \<Rightarrow> int \<Rightarrow> (int \<times> rng) option" where
  "trials_py fuel 0 spec_a spec_b g wins = Some (wins, g)"
| "trials_py fuel (Suc k) spec_a spec_b g wins =
     (case battle_once_py fuel spec_a spec_b g of
        None \<Rightarrow> None
      | Some (won, g1) \<Rightarrow> trials_py fuel k spec_a spec_b g1 (if won then wins + 1 else wins))"

definition win_probability_py ::
  "nat \<Rightarrow> (int \<Rightarrow> rng) \<Rightarrow> rng \<Rightarrow> ship \<Rightarrow> ship \<Rightarrow> int \<Rightarrow> int option \<Rightarrow> ((error + rat) \<times> rng) option" where
  "win_probability_py fuel seeded g spec_a spec_b simulations seed =
     (let g0 = (case seed of None \<Rightarrow> g | Some s \<Rightarrow> seeded s) in
      case trials_py fuel (nat simulations) spec_a spec_b g0 0 of
        None \<Rightarrow> None
      | Some (wins, g1) \<Rightarrow>
          Some (if simulations = 0 then Inl ZeroDivisionError
                else Inr (of_int wins / of_int simulations), g1))"

section \<open>Concrete inputs\<close>

text \<open>The generator that delivers the same face forever.\<close>

definition always :: "face \<Rightarrow> rng" where
  "always d = (\<lambda>i. d)"

text \<open>The first scenario of the test file.\<close>

definition sudden_a :: ship where
  "sudden_a = \<lparr>initiative = 5, hull_pts = 1, computer = 2, shield = 1, missiles = [], cannons = [1]\<rparr>"

definition sudden_b :: ship where
  "sudden_b = \<lparr>initiative = 4, hull_pts = 1, computer = 1, shield = 1, missiles = [], cannons = [1]\<rparr>"

text \<open>Specs with no hull left: one with a missile, one without.\<close>

definition wreck_armed :: ship where
  "wreck_armed = \<lparr>initiative = 4, hull_pts = 0, computer = 1, shield = 1, missiles = [1], cannons = [1]\<rparr>"

definition wreck :: ship where
  "wreck = \<lparr>initiative = 4, hull_pts = 0, computer = 1, shield = 1, missiles = [], cannons = [- 1]\<rparr>"





section \<open>Single-shot resolution\<close>

lemma idx_less_6: "idx d < 6"
  by (cases d) simp_all

lemma roll_feed: "roll (feed d g) = (choices ! idx d, g)"
  by (simp add: roll_def randbelow6_def feed_def)

lemma roll_hit_py_roll:
  "roll_hit_py (computer self) S t = (hit self (fst (roll t)) S, snd (roll t))"
  by (cases "t 0") (simp_all add: roll_hit_py_def roll_def randbelow6_def choices_def)

text \<open>
  C1. The roll of the plain resolver is the entry of the six-element table at the position
  the generator delivers, so under one uniform draw each of the six outcomes
  \<open>No damage, 2, 3, 4, 5, Full hit\<close> has probability 1/6. \<open>No damage\<close> never hits, \<open>Full hit\<close>
  always hits, and a number \<open>v\<close> hits exactly when \<open>v + C - S \<ge> 6\<close>. The fallback resolver
  decides every draw as the plain resolver does, and leaves the generator in the same state.
\<close>

theorem C1_single_shot:
  "map (\<lambda>d. fst (roll (feed d g))) faces = [NoDamage, Num 2, Num 3, Num 4, Num 5, FullHit]
   \<and> expect 1 (\<lambda>t. if fst (roll t) = choices ! idx d then 1 else 0) g = 1 / 6
   \<and> \<not> hit self NoDamage S
   \<and> hit self FullHit S
   \<and> hit self (Num v) S = (v + computer self - S \<ge> 6)
   \<and> roll_hit_py (computer self) S t = (hit self (fst (roll t)) S, snd (roll t))"
proof -
  have 1: "map (\<lambda>d. fst (roll (feed d g))) faces = [NoDamage, Num 2, Num 3, Num 4, Num 5, FullHit]"
    by (simp add: roll_feed faces_def choices_def)
  have 2: "expect 1 (\<lambda>t. if fst (roll t) = choices ! idx d then 1 else 0) g = 1 / 6"
    by (cases d) (simp_all add: roll_feed faces_def choices_def)
  have 3: "roll_hit_py (computer self) S t = (hit self (fst (roll t)) S, snd (roll t))"
    by (rule roll_hit_py_roll)
  from 1 2 3 show ?thesis by simp
qed

section \<open>The two Python resolvers compared\<close>

lemma fire_py:
  "fst (fire self target w g) =
     target\<lparr>hull_pts := fst (fire_sequence_py w (computer self) (shield target) (hull_pts target) g)\<rparr>
   \<and> fst (snd (fire self target w g)) =
     snd (fire_sequence_py w (computer self) (shield target) (hull_pts target) g)"
proof (induction w arbitrary: target g)
  case Nil
  then show ?case by simp
next
  case (Cons dmg w)
  then show ?case
    by (simp add: roll_hit_py_roll take_dmg_def destroyed_def Let_def case_prod_beta)
qed

lemma fire_fst:
  "fst (fire self target w g) =
     target\<lparr>hull_pts := fst (fire_sequence_py w (computer self) (shield target) (hull_pts target) g)\<rparr>"
  by (simp add: fire_py)

lemma fire_snd:
  "fst (snd (fire self target w g)) =
     snd (fire_sequence_py w (computer self) (shield target) (hull_pts target) g)"
  by (simp add: fire_py)

lemma cannon_phase_over:
  "destroyed first \<or> destroyed second \<Longrightarrow>
     cannon_phase n a_first first second g = (True, first, second, g, [])"
  by (cases n) auto

lemma cannon_equiv_True:
  "0 < a_hp \<Longrightarrow> 0 < b_hp \<Longrightarrow>
   cannon_loop_py n sa sb True a_hp b_hp g =
     (if fst (cannon_phase n True (sa\<lparr>hull_pts := a_hp\<rparr>) (sb\<lparr>hull_pts := b_hp\<rparr>) g)
      then Some (destroyed (fst (snd (snd (cannon_phase n True (sa\<lparr>hull_pts := a_hp\<rparr>) (sb\<lparr>hull_pts := b_hp\<rparr>) g)))),
                 fst (snd (snd (snd (cannon_phase n True (sa\<lparr>hull_pts := a_hp\<rparr>) (sb\<lparr>hull_pts := b_hp\<rparr>) g)))))
      else None)
   \<and> (fst (cannon_phase n True (sa\<lparr>hull_pts := a_hp\<rparr>) (sb\<lparr>hull_pts := b_hp\<rparr>) g) \<longrightarrow>
        destroyed (fst (snd (cannon_phase n True (sa\<lparr>hull_pts := a_hp\<rparr>) (sb\<lparr>hull_pts := b_hp\<rparr>) g)))
        \<noteq> destroyed (fst (snd (snd (cannon_phase n True (sa\<lparr>hull_pts := a_hp\<rparr>) (sb\<lparr>hull_pts := b_hp\<rparr>) g)))))"
proof (induction n arbitrary: a_hp b_hp g)
  case 0
  then show ?case by (simp add: destroyed_def)
next
  case (Suc n)
  then show ?case
    by (simp add: destroyed_def case_prod_beta Let_def cannon_phase_over fire_fst fire_snd)
qed

lemma cannon_equiv_False:
  "0 < a_hp \<Longrightarrow> 0 < b_hp \<Longrightarrow>
   cannon_loop_py n sa sb False a_hp b_hp g =
     (if fst (cannon_phase n False (sb\<lparr>hull_pts := b_hp\<rparr>) (sa\<lparr>hull_pts := a_hp\<rparr>) g)
      then Some (destroyed (fst (snd (cannon_phase n False (sb\<lparr>hull_pts := b_hp\<rparr>) (sa\<lparr>hull_pts := a_hp\<rparr>) g))),
                 fst (snd (snd (snd (cannon_phase n False (sb\<lparr>hull_pts := b_hp\<rparr>) (sa\<lparr>hull_pts := a_hp\<rparr>) g)))))
      else None)
   \<and> (fst (cannon_phase n False (sb\<lparr>hull_pts := b_hp\<rparr>) (sa\<lparr>hull_pts := a_hp\<rparr>) g) \<longrightarrow>
        destroyed (fst (snd (cannon_phase n False (sb\<lparr>hull_pts := b_hp\<rparr>) (sa\<lparr>hull_pts := a_hp\<rparr>) g)))
        \<noteq> destroyed (fst (snd (snd (cannon_phase n False (sb\<lparr>hull_pts := b_hp\<rparr>) (sa\<lparr>hull_pts := a_hp\<rparr>) g)))))"
proof (induction n arbitrary: a_hp b_hp g)
  case 0
  then show ?case by (simp add: destroyed_def)
next
  case (Suc n)
  then show ?case
    by (simp add: destroyed_def case_prod_beta Let_def cannon_phase_over fire_fst fire_snd)
qed


lemma cannons_and_verdict_py_True:
  assumes "0 < a_hp" "0 < b_hp"
  shows "cannon_loop_py n sa sb True a_hp b_hp g =
      map_option (\<lambda>v. (v = 1, rng_after (cannons_and_verdict n True (sa\<lparr>hull_pts := a_hp\<rparr>) (sb\<lparr>hull_pts := b_hp\<rparr>) g)))
        (outcome (cannons_and_verdict n True (sa\<lparr>hull_pts := a_hp\<rparr>) (sb\<lparr>hull_pts := b_hp\<rparr>) g))
    \<and> outcome (cannons_and_verdict n True (sa\<lparr>hull_pts := a_hp\<rparr>) (sb\<lparr>hull_pts := b_hp\<rparr>) g) \<noteq> Some 0"
  using cannon_equiv_True [OF assms, of n sa sb g]
  by (auto simp: cannons_and_verdict_def case_prod_beta Let_def)

lemma cannons_and_verdict_py_False:
  assumes "0 < a_hp" "0 < b_hp"
  shows "cannon_loop_py n sa sb False a_hp b_hp g =
      map_option (\<lambda>v. (v = 1, rng_after (cannons_and_verdict n False (sb\<lparr>hull_pts := b_hp\<rparr>) (sa\<lparr>hull_pts := a_hp\<rparr>) g)))
        (outcome (cannons_and_verdict n False (sb\<lparr>hull_pts := b_hp\<rparr>) (sa\<lparr>hull_pts := a_hp\<rparr>) g))
    \<and> outcome (cannons_and_verdict n False (sb\<lparr>hull_pts := b_hp\<rparr>) (sa\<lparr>hull_pts := a_hp\<rparr>) g) \<noteq> Some 0"
  using cannon_equiv_False [OF assms, of n sa sb g]
  by (auto simp: cannons_and_verdict_def case_prod_beta Let_def)


lemma second_missiles_py_True:
  assumes "0 < a_hp" "0 < b_hp"
  shows "(case fire_sequence_py (missiles sb) (computer sb) (shield sa) a_hp g of
            (a_hp1, g2) \<Rightarrow> if a_hp1 \<le> 0 then Some (False, g2)
                           else cannon_loop_py n sa sb True a_hp1 b_hp g2) =
      map_option (\<lambda>v. (v = 1, rng_after (second_missiles n True (sa\<lparr>hull_pts := a_hp\<rparr>) (sb\<lparr>hull_pts := b_hp\<rparr>) g)))
        (outcome (second_missiles n True (sa\<lparr>hull_pts := a_hp\<rparr>) (sb\<lparr>hull_pts := b_hp\<rparr>) g))
    \<and> outcome (second_missiles n True (sa\<lparr>hull_pts := a_hp\<rparr>) (sb\<lparr>hull_pts := b_hp\<rparr>) g) \<noteq> Some 0"
proof (cases "missiles sb = []")
  case True
  with assms cannons_and_verdict_py_True [OF assms, of n sa sb g] show ?thesis
    by (simp add: second_missiles_def)
next
  case False
  define a1 where "a1 = fst (fire_sequence_py (missiles sb) (computer sb) (shield sa) a_hp g)"
  define g1 where "g1 = snd (fire_sequence_py (missiles sb) (computer sb) (shield sa) a_hp g)"
  show ?thesis
  proof (cases "a1 \<le> 0")
    case True
    with \<open>missiles sb \<noteq> []\<close> show ?thesis
      by (simp add: fire_fst fire_snd second_missiles_def case_prod_beta logged_def early_return_def destroyed_def
          a1_def g1_def)
  next
    case False
    then have "0 < a1" by simp
    from cannons_and_verdict_py_True [OF this assms(2), of n sa sb g1] False \<open>missiles sb \<noteq> []\<close>
    show ?thesis
      by (simp add: fire_fst fire_snd second_missiles_def case_prod_beta logged_def destroyed_def a1_def g1_def)
  qed
qed


lemma second_missiles_py_False:
  assumes "0 < a_hp" "0 < b_hp"
  shows "(case fire_sequence_py (missiles sa) (computer sa) (shield sb) b_hp g of
            (b_hp1, g2) \<Rightarrow> if b_hp1 \<le> 0 then Some (True, g2)
                           else cannon_loop_py n sa sb False a_hp b_hp1 g2) =
      map_option (\<lambda>v. (v = 1, rng_after (second_missiles n False (sb\<lparr>hull_pts := b_hp\<rparr>) (sa\<lparr>hull_pts := a_hp\<rparr>) g)))
        (outcome (second_missiles n False (sb\<lparr>hull_pts := b_hp\<rparr>) (sa\<lparr>hull_pts := a_hp\<rparr>) g))
    \<and> outcome (second_missiles n False (sb\<lparr>hull_pts := b_hp\<rparr>) (sa\<lparr>hull_pts := a_hp\<rparr>) g) \<noteq> Some 0"
proof (cases "missiles sa = []")
  case True
  with assms cannons_and_verdict_py_False [OF assms, of n sa sb g] show ?thesis
    by (simp add: second_missiles_def)
next
  case False
  define b1 where "b1 = fst (fire_sequence_py (missiles sa) (computer sa) (shield sb) b_hp g)"
  define g1 where "g1 = snd (fire_sequence_py (missiles sa) (computer sa) (shield sb) b_hp g)"
  show ?thesis
  proof (cases "b1 \<le> 0")
    case True
    with \<open>missiles sa \<noteq> []\<close> show ?thesis
      by (simp add: fire_fst fire_snd second_missiles_def case_prod_beta logged_def early_return_def destroyed_def
          b1_def g1_def)
  next
    case False
    then have "0 < b1" by simp
    from cannons_and_verdict_py_False [OF assms(1) this, of n sa sb g1] False \<open>missiles sa \<noteq> []\<close>
    show ?thesis
      by (simp add: fire_fst fire_snd second_missiles_def case_prod_beta logged_def destroyed_def b1_def g1_def)
  qed
qed

lemma ship_hull_id: "sp\<lparr>hull_pts := hull_pts sp\<rparr> = sp"
  by simp

text \<open>
  C3, amended. For specs whose hull is positive, the plain resolver and the pure-Python
  fallback agree on every generator and for every bound on the cannon rounds: the fallback
  returns exactly when the plain resolver does, \<open>True\<close> where the plain resolver returns 1
  and \<open>False\<close> where it returns -1, after the same draws; the plain resolver never returns 0.
\<close>

theorem C3_equiv:
  assumes "0 < hull_pts a" "0 < hull_pts b"
  shows "battle_once_py n a b g =
           map_option (\<lambda>v. (v = 1, rng_after (simulate_once n a b g))) (outcome (simulate_once n a b g))
         \<and> outcome (simulate_once n a b g) \<noteq> Some 0"
proof (cases "initiative a > initiative b")
  case True
  show ?thesis
  proof (cases "missiles a = []")
    case m: True
    from second_missiles_py_True [OF assms, where sa=a and sb=b and g=g and n=n] True m assms show ?thesis
      by (simp add: fire_fst fire_snd Let_def simulate_once_def battle_once_py_def)
  next
    case m: False
    define b1 where "b1 = fst (fire_sequence_py (missiles a) (computer a) (shield b) (hull_pts b) g)"
    define g1 where "g1 = snd (fire_sequence_py (missiles a) (computer a) (shield b) (hull_pts b) g)"
    show ?thesis
    proof (cases "b1 \<le> 0")
      case True
      with \<open>initiative a > initiative b\<close> m show ?thesis
        by (simp add: fire_fst fire_snd Let_def simulate_once_def battle_once_py_def case_prod_beta logged_def
            early_return_def destroyed_def b1_def g1_def)
    next
      case False
      then have "0 < b1" by simp
      from second_missiles_py_True [OF assms(1) this, where sa=a and sb=b and g=g1 and n=n] False
        \<open>initiative a > initiative b\<close> m
      show ?thesis unfolding b1_def g1_def
        by (simp add: fire_fst fire_snd Let_def simulate_once_def battle_once_py_def case_prod_beta logged_def
            destroyed_def)
    qed
  qed
next
  case False
  show ?thesis
  proof (cases "missiles b = []")
    case m: True
    from second_missiles_py_False [OF assms, where sa=a and sb=b and g=g and n=n] False m assms show ?thesis
      by (simp add: fire_fst fire_snd Let_def simulate_once_def battle_once_py_def)
  next
    case m: False
    define a1 where "a1 = fst (fire_sequence_py (missiles b) (computer b) (shield a) (hull_pts a) g)"
    define g1 where "g1 = snd (fire_sequence_py (missiles b) (computer b) (shield a) (hull_pts a) g)"
    show ?thesis
    proof (cases "a1 \<le> 0")
      case True
      with \<open>\<not> initiative a > initiative b\<close> m show ?thesis
        by (simp add: fire_fst fire_snd Let_def simulate_once_def battle_once_py_def case_prod_beta logged_def
            early_return_def destroyed_def a1_def g1_def)
    next
      case False
      then have "0 < a1" by simp
      from second_missiles_py_False [OF this assms(2), where sa=a and sb=b and g=g1 and n=n] False
        \<open>\<not> initiative a > initiative b\<close> m
      show ?thesis unfolding a1_def g1_def
        by (simp add: fire_fst fire_snd Let_def simulate_once_def battle_once_py_def case_prod_beta logged_def
            destroyed_def)
    qed
  qed
qed

theorem C3_equiv_witness:
  "0 < hull_pts sudden_a \<and> 0 < hull_pts sudden_b
   \<and> battle_once_py 1 sudden_a sudden_b (always F5) = Some (True, always F5)
   \<and> outcome (simulate_once 1 sudden_a sudden_b (always F5)) = Some 1"
proof -
  have h: "0 < hull_pts sudden_a" "0 < hull_pts sudden_b"
    by (simp_all add: sudden_a_def sudden_b_def)
  have "battle_once_py 1 sudden_a sudden_b (always F5) = Some (True, always F5)"
    by (simp add: battle_once_py_def sudden_a_def sudden_b_def roll_hit_py_def randbelow6_def
        always_def)
  with h C3_equiv [OF h, of 1 "always F5"] show ?thesis
    by (cases "outcome (simulate_once 1 sudden_a sudden_b (always F5))") auto
qed

text \<open>
  With a spec that starts without hull the two resolvers disagree: A has the initiative and
  no missile, B has hull 0 and one missile, and every roll is a full hit. The plain resolver
  lets B fire its missile and returns -1; the fallback returns \<open>True\<close> before B fires.
\<close>

theorem C3_counterexample:
  "outcome (simulate_once 1 sudden_a wreck_armed (always F5)) = Some (- 1)
   \<and> map_option fst (battle_once_py 1 sudden_a wreck_armed (always F5)) = Some True"
  by (simp add: simulate_once_def second_missiles_def early_return_def logged_def
      battle_once_py_def sudden_a_def wreck_armed_def roll_def roll_hit_py_def randbelow6_def
      always_def choices_def take_dmg_def destroyed_def)

section \<open>Draws and destroyed ships in the plain resolver\<close>

lemma loop_cond:
  "(\<not> destroyed (if af then first else second) \<and> \<not> destroyed (if af then second else first))
     = (\<not> destroyed first \<and> \<not> destroyed second)"
  by auto

lemma cannon_phase_trace_alive:
  "\<forall>v \<in> set (snd (snd (snd (snd (cannon_phase n af first second g))))). 0 < shooter_hull v"
proof (induction n arbitrary: first second g)
  case 0
  then show ?case by simp
next
  case (Suc n)
  show ?case
  proof (cases "destroyed first \<or> destroyed second")
    case True
    have "cannon_phase (Suc n) af first second g = (True, first, second, g, [])"
      using True by (rule cannon_phase_over)
    then show ?thesis by (simp only: snd_conv list.set ball_empty)
  next
    case False
    then have alive: "0 < hull_pts first" "0 < hull_pts second"
      by (auto simp: destroyed_def)
    with False Suc.IH show ?thesis
      by (simp add: loop_cond case_prod_beta Let_def destroyed_def fire_fst)
  qed
qed

lemma cannon_phase_both:
  "destroyed (fst (snd (cannon_phase n af first second g))) \<and>
   destroyed (fst (snd (snd (cannon_phase n af first second g)))) \<longrightarrow>
   destroyed first \<and> destroyed second"
proof (induction n arbitrary: first second g)
  case 0
  then show ?case by simp
next
  case (Suc n)
  show ?case
  proof (cases "destroyed first \<or> destroyed second")
    case True
    have "cannon_phase (Suc n) af first second g = (True, first, second, g, [])"
      using True by (rule cannon_phase_over)
    then show ?thesis by (simp only: snd_conv fst_conv) simp
  next
    case False
    then have nf: "\<not> destroyed first" and ns: "\<not> destroyed second" by auto
    define second1 where "second1 = fst (fire first second (cannons first) g)"
    define g1 where "g1 = fst (snd (fire first second (cannons first) g))"
    define first1 where "first1 = fst (fire second1 first (cannons second1) g1)"
    define g2 where "g2 = fst (snd (fire second1 first (cannons second1) g1))"
    show ?thesis
    proof (cases "destroyed second1")
      case True
      with nf ns show ?thesis
        unfolding second1_def by (simp add: loop_cond case_prod_beta Let_def)
    next
      case d: False
      from Suc.IH [of first1 second1 g2] d
      have "\<not> (destroyed (fst (snd (cannon_phase n af first1 second1 g2))) \<and>
               destroyed (fst (snd (snd (cannon_phase n af first1 second1 g2)))))"
        by blast
      with nf ns d show ?thesis
        unfolding second1_def g1_def first1_def g2_def
        by (simp add: loop_cond case_prod_beta Let_def)
    qed
  qed
qed

lemma cannons_and_verdict_draw:
  "(outcome (cannons_and_verdict n af first second g) = Some 0) = (destroyed first \<and> destroyed second)"
proof (cases "destroyed first \<or> destroyed second")
  case True
  have "cannon_phase n af first second g = (True, first, second, g, [])"
    using True by (rule cannon_phase_over)
  then show ?thesis by (cases af) (simp_all add: cannons_and_verdict_def conj_commute)
next
  case False
  with cannon_phase_both [of n af first second g]
  have "\<not> (destroyed (fst (snd (cannon_phase n af first second g))) \<and>
           destroyed (fst (snd (snd (cannon_phase n af first second g)))))" by blast
  with False show ?thesis
    by (cases af) (auto simp add: cannons_and_verdict_def case_prod_beta Let_def)
qed

lemma second_missiles_draw:
  "(outcome (second_missiles n af first second g) = Some 0) =
     (missiles second = [] \<and> destroyed first \<and> destroyed second)"
proof (cases "missiles second = []")
  case True
  then show ?thesis by (simp add: second_missiles_def cannons_and_verdict_draw)
next
  case False
  define first1 where "first1 = fst (fire second first (missiles second) g)"
  define g1 where "g1 = fst (snd (fire second first (missiles second) g))"
  show ?thesis
  proof (cases "destroyed first1")
    case True
    with False show ?thesis
      unfolding first1_def
      by (simp add: second_missiles_def case_prod_beta logged_def early_return_def)
  next
    case d: False
    then have "outcome (cannons_and_verdict n af first1 second g1) \<noteq> Some 0"
      by (simp add: cannons_and_verdict_draw)
    with False d show ?thesis
      unfolding first1_def g1_def
      by (simp add: second_missiles_def case_prod_beta logged_def)
  qed
qed

lemma simulate_once_draw:
  "(outcome (simulate_once n a b g) = Some 0) =
     (missiles a = [] \<and> missiles b = [] \<and> hull_pts a \<le> 0 \<and> hull_pts b \<le> 0)"
proof -
  define af where "af = (initiative a > initiative b)"
  define first where "first = (if af then a else b)"
  define second where "second = (if af then b else a)"
  have sim: "simulate_once n a b g =
    (if missiles first \<noteq> [] then
       (case fire first second (missiles first) g of (second1, g1, rs) \<Rightarrow>
          logged \<lparr>shooter = side_of af, shooter_hull = hull_pts first,
                  weapon_list = Missiles, drawn = rs\<rparr>
            (if destroyed second1 then early_return af af first second1 g1
             else second_missiles n af first second1 g1))
     else second_missiles n af first second g)"
    unfolding simulate_once_def Let_def af_def first_def second_def by (rule refl)
  show ?thesis
  proof (cases "missiles first = []")
    case True
    then have "(outcome (simulate_once n a b g) = Some 0) =
        (missiles second = [] \<and> destroyed first \<and> destroyed second)"
      by (simp add: sim second_missiles_draw)
    with True show ?thesis
      by (cases af) (auto simp: first_def second_def destroyed_def)
  next
    case False
    define second1 where "second1 = fst (fire first second (missiles first) g)"
    define g1 where "g1 = fst (snd (fire first second (missiles first) g))"
    have "outcome (simulate_once n a b g) \<noteq> Some 0"
    proof (cases "destroyed second1")
      case True
      with False show ?thesis
        unfolding second1_def
        by (simp add: sim case_prod_beta logged_def early_return_def)
    next
      case d: False
      then have "outcome (second_missiles n af first second1 g1) \<noteq> Some 0"
        by (simp add: second_missiles_draw)
      with False d show ?thesis
        unfolding second1_def g1_def
        by (simp add: sim case_prod_beta logged_def)
    qed
    with False show ?thesis
      by (cases af) (auto simp: first_def second_def)
  qed
qed

lemma simulate_once_idle:
  "missiles a = [] \<Longrightarrow> missiles b = [] \<Longrightarrow> hull_pts a \<le> 0 \<Longrightarrow> hull_pts b \<le> 0 \<Longrightarrow>
   simulate_once n a b g = \<lparr>outcome = Some 0, ship_a = a, ship_b = b, rng_after = g, trace = []\<rparr>"
proof -
  assume h: "missiles a = []" "missiles b = []" "hull_pts a \<le> 0" "hull_pts b \<le> 0"
  have "cannon_phase n af f s g = (True, f, s, g, [])" if "destroyed f \<or> destroyed s" for af f s
    using that by (rule cannon_phase_over)
  with h show ?thesis
    by (simp add: simulate_once_def second_missiles_def cannons_and_verdict_def destroyed_def
        Let_def)
qed

lemma cannons_and_verdict_trace:
  "trace (cannons_and_verdict n af first second g) =
     snd (snd (snd (snd (cannon_phase n af first second g))))"
  by (simp add: cannons_and_verdict_def case_prod_beta Let_def)

lemma second_missiles_trace_origin:
  assumes "v \<in> set (trace (second_missiles n af first second g))"
  shows "0 < shooter_hull v
         \<or> (weapon_list v = Missiles \<and> shooter v = side_of (\<not> af) \<and> shooter_hull v = hull_pts second)"
proof (cases "missiles second = []")
  case True
  with assms cannon_phase_trace_alive [of n af first second g] show ?thesis
    by (simp add: second_missiles_def cannons_and_verdict_trace)
next
  case False
  define first1 where "first1 = fst (fire second first (missiles second) g)"
  define g1 where "g1 = fst (snd (fire second first (missiles second) g))"
  show ?thesis
  proof (cases "destroyed first1")
    case True
    with False assms show ?thesis
      unfolding first1_def
      by (simp add: second_missiles_def case_prod_beta logged_def early_return_def)
  next
    case d: False
    with False assms cannon_phase_trace_alive [of n af first1 second g1] show ?thesis
      unfolding first1_def g1_def
      by (auto simp add: second_missiles_def case_prod_beta logged_def cannons_and_verdict_trace)
  qed
qed

lemma simulate_once_trace_origin:
  assumes "v \<in> set (trace (simulate_once n a b g))"
  shows "0 < shooter_hull v
         \<or> (weapon_list v = Missiles \<and> shooter_hull v = hull_pts (case shooter v of A \<Rightarrow> a | B \<Rightarrow> b))"
proof -
  define af where "af = (initiative a > initiative b)"
  define first where "first = (if af then a else b)"
  define second where "second = (if af then b else a)"
  have sim: "simulate_once n a b g =
    (if missiles first \<noteq> [] then
       (case fire first second (missiles first) g of (second1, g1, rs) \<Rightarrow>
          logged \<lparr>shooter = side_of af, shooter_hull = hull_pts first,
                  weapon_list = Missiles, drawn = rs\<rparr>
            (if destroyed second1 then early_return af af first second1 g1
             else second_missiles n af first second1 g1))
     else second_missiles n af first second g)"
    unfolding simulate_once_def Let_def af_def first_def second_def by (rule refl)
  have fst_origin: "hull_pts first = hull_pts (case side_of af of A \<Rightarrow> a | B \<Rightarrow> b)"
    by (simp add: first_def side_of_def)
  have snd_origin: "hull_pts second = hull_pts (case side_of (\<not> af) of A \<Rightarrow> a | B \<Rightarrow> b)"
    by (simp add: second_def side_of_def)
  show ?thesis
  proof (cases "missiles first = []")
    case True
    with assms have "v \<in> set (trace (second_missiles n af first second g))"
      by (simp add: sim)
    from second_missiles_trace_origin [OF this] snd_origin show ?thesis by auto
  next
    case False
    define second1 where "second1 = fst (fire first second (missiles first) g)"
    define g1 where "g1 = fst (snd (fire first second (missiles first) g))"
    show ?thesis
    proof (cases "destroyed second1")
      case True
      with False assms fst_origin show ?thesis
        unfolding second1_def
        by (simp add: sim case_prod_beta logged_def early_return_def)
    next
      case d: False
      with False assms have "(weapon_list v = Missiles \<and> shooter v = side_of af
            \<and> shooter_hull v = hull_pts first)
          \<or> v \<in> set (trace (second_missiles n af first second1 g1))"
        unfolding second1_def g1_def
        by (auto simp add: sim case_prod_beta logged_def)
      then show ?thesis
      proof
        assume "weapon_list v = Missiles \<and> shooter v = side_of af \<and> shooter_hull v = hull_pts first"
        with fst_origin show ?thesis by simp
      next
        assume "v \<in> set (trace (second_missiles n af first second1 g1))"
        from second_missiles_trace_origin [OF this] d show ?thesis
          by (auto simp add: destroyed_def)
      qed
    qed
  qed
qed

text \<open>
  C4, amended. The plain resolver returns 0 exactly when both specs start with a hull of at
  most 0 and neither has a missile. In that run no volley is fired and no roll is drawn: the
  missile phase is skipped for want of missiles, the cannon loop is not entered, and both
  ships are found destroyed as they were built.
\<close>

theorem C4_draw:
  "(outcome (simulate_once n a b g) = Some 0) =
     (missiles a = [] \<and> missiles b = [] \<and> hull_pts a \<le> 0 \<and> hull_pts b \<le> 0)
   \<and> (outcome (simulate_once n a b g) = Some 0 \<longrightarrow>
        trace (simulate_once n a b g) = [] \<and> rng_after (simulate_once n a b g) = g
        \<and> ship_a (simulate_once n a b g) = a \<and> ship_b (simulate_once n a b g) = b)"
proof -
  have 1: "(outcome (simulate_once n a b g) = Some 0) =
     (missiles a = [] \<and> missiles b = [] \<and> hull_pts a \<le> 0 \<and> hull_pts b \<le> 0)"
    by (rule simulate_once_draw)
  have 2: "trace (simulate_once n a b g) = [] \<and> rng_after (simulate_once n a b g) = g
        \<and> ship_a (simulate_once n a b g) = a \<and> ship_b (simulate_once n a b g) = b"
    if "outcome (simulate_once n a b g) = Some 0"
  proof -
    from that 1 have "missiles a = []" "missiles b = []" "hull_pts a \<le> 0" "hull_pts b \<le> 0"
      by blast+
    then have "simulate_once n a b g =
        \<lparr>outcome = Some 0, ship_a = a, ship_b = b, rng_after = g, trace = []\<rparr>"
      by (rule simulate_once_idle)
    then show ?thesis by simp
  qed
  from 1 2 show ?thesis by blast
qed

theorem C4_draw_witness:
  "outcome (simulate_once 3 wreck wreck (always F5)) = Some 0
   \<and> trace (simulate_once 3 wreck wreck (always F5)) = []
   \<and> rng_after (simulate_once 3 wreck wreck (always F5)) = always F5"
  using C4_draw [of 3 wreck wreck "always F5"]
  by (simp add: wreck_def)

text \<open>
  No run of the plain resolver that returns 0 contains a volley: a draw is never the result
  of an exchange of fire.
\<close>

theorem C4_counterexample:
  "\<not> (\<exists>n a b g. outcome (simulate_once n a b g) = Some 0 \<and> trace (simulate_once n a b g) \<noteq> [])"
proof
  assume "\<exists>n a b g. outcome (simulate_once n a b g) = Some 0 \<and> trace (simulate_once n a b g) \<noteq> []"
  then obtain n a b g where o: "outcome (simulate_once n a b g) = Some 0"
    and t: "trace (simulate_once n a b g) \<noteq> []" by blast
  from o have "missiles a = []" "missiles b = []" "hull_pts a \<le> 0" "hull_pts b \<le> 0"
    by (simp_all add: simulate_once_draw)
  then have "simulate_once n a b g =
      \<lparr>outcome = Some 0, ship_a = a, ship_b = b, rng_after = g, trace = []\<rparr>"
    by (rule simulate_once_idle)
  with t show False by simp
qed

text \<open>
  C9, amended. For specs whose hull is positive, every volley of a trial of the plain
  resolver, missile or cannon, is fired by a ship whose hull is positive at that moment: a
  ship whose hull has dropped to 0 or below fires no further volley. This holds for every
  generator and every bound on the cannon rounds; all rolls are drawn, and all damage is
  applied, within volleys. For arbitrary specs, every cannon volley is fired by a ship whose
  hull is positive, and so is every volley of a ship that was built with a positive hull.
\<close>

theorem C9_silent:
  "(0 < hull_pts a \<and> 0 < hull_pts b \<longrightarrow>
      (\<forall>v \<in> set (trace (simulate_once n a b g)). 0 < shooter_hull v))
   \<and> (\<forall>v \<in> set (trace (simulate_once n a b g)).
        weapon_list v = Cannons \<or> 0 < hull_pts (case shooter v of A \<Rightarrow> a | B \<Rightarrow> b)
        \<longrightarrow> 0 < shooter_hull v)"
proof -
  have gen: "0 < shooter_hull v"
    if "v \<in> set (trace (simulate_once n a b g))"
      and "weapon_list v = Cannons \<or> 0 < hull_pts (case shooter v of A \<Rightarrow> a | B \<Rightarrow> b)" for v
    using simulate_once_trace_origin [OF that(1)] that(2) by auto
  have pos: "0 < shooter_hull v"
    if "v \<in> set (trace (simulate_once n a b g))" and "0 < hull_pts a" and "0 < hull_pts b" for v
  proof -
    from that(2,3) have "0 < hull_pts (case shooter v of A \<Rightarrow> a | B \<Rightarrow> b)"
      by (cases "shooter v") simp_all
    with that(1) show ?thesis using gen by blast
  qed
  from gen pos show ?thesis by blast
qed

text \<open>
  In the first scenario of the test file, A and B miss once each and A then scores a full
  hit: B is destroyed with its cannon still to fire in that round, and fires no more.
\<close>

theorem C9_silent_witness:
  "0 < hull_pts sudden_a \<and> 0 < hull_pts sudden_b
   \<and> list_all (\<lambda>v. 0 < shooter_hull v)
        (trace (simulate_once 3 sudden_a sudden_b (feed F0 (feed F0 (always F5)))))
   \<and> map shooter (trace (simulate_once 3 sudden_a sudden_b (feed F0 (feed F0 (always F5)))))
        = [A, B, A]
   \<and> list_all (\<lambda>v. weapon_list v = Cannons)
        (trace (simulate_once 3 sudden_a sudden_b (feed F0 (feed F0 (always F5)))))
   \<and> outcome (simulate_once 3 sudden_a sudden_b (feed F0 (feed F0 (always F5)))) = Some 1
   \<and> hull_pts (ship_b (simulate_once 3 sudden_a sudden_b (feed F0 (feed F0 (always F5))))) = 0
   \<and> cannons (ship_b (simulate_once 3 sudden_a sudden_b (feed F0 (feed F0 (always F5))))) = [1]"
proof -
  have h: "0 < hull_pts sudden_a" "0 < hull_pts sudden_b"
    by (simp_all add: sudden_a_def sudden_b_def)
  have r: "simulate_once 3 sudden_a sudden_b (feed F0 (feed F0 (always F5))) =
      \<lparr>outcome = Some 1, ship_a = sudden_a, ship_b = sudden_b\<lparr>hull_pts := 0\<rparr>,
       rng_after = always F5,
       trace = [\<lparr>shooter = A, shooter_hull = 1, weapon_list = Cannons, drawn = [NoDamage]\<rparr>,
                \<lparr>shooter = B, shooter_hull = 1, weapon_list = Cannons, drawn = [NoDamage]\<rparr>,
                \<lparr>shooter = A, shooter_hull = 1, weapon_list = Cannons, drawn = [FullHit]\<rparr>]\<rparr>"
    by (simp add: simulate_once_def second_missiles_def cannons_and_verdict_def
        sudden_a_def sudden_b_def roll_def randbelow6_def feed_def always_def choices_def
        take_dmg_def destroyed_def side_of_def numeral_3_eq_3)
  have c: "map shooter (trace (simulate_once 3 sudden_a sudden_b (feed F0 (feed F0 (always F5)))))
        = [A, B, A]
   \<and> list_all (\<lambda>v. weapon_list v = Cannons)
        (trace (simulate_once 3 sudden_a sudden_b (feed F0 (feed F0 (always F5)))))
   \<and> outcome (simulate_once 3 sudden_a sudden_b (feed F0 (feed F0 (always F5)))) = Some 1
   \<and> hull_pts (ship_b (simulate_once 3 sudden_a sudden_b (feed F0 (feed F0 (always F5))))) = 0
   \<and> cannons (ship_b (simulate_once 3 sudden_a sudden_b (feed F0 (feed F0 (always F5))))) = [1]"
    unfolding r by (simp add: sudden_b_def)
  from h c C9_silent [of sudden_a sudden_b 3 "feed F0 (feed F0 (always F5))"] show ?thesis
    by (simp add: list_all_iff)
qed

text \<open>
  A run in which a ship without hull fires: A has the initiative and no missile, B is built
  with hull 0 and one missile, and the roll is a full hit. No check precedes B's missile
  volley in this run, so B fires with hull 0 and destroys A.
\<close>

theorem C9_counterexample:
  "trace (simulate_once 1 sudden_a wreck_armed (always F5)) =
     [\<lparr>shooter = B, shooter_hull = 0, weapon_list = Missiles, drawn = [FullHit]\<rparr>]
   \<and> hull_pts (ship_a (simulate_once 1 sudden_a wreck_armed (always F5))) = 0"
  by (simp add: simulate_once_def second_missiles_def early_return_def logged_def
      sudden_a_def wreck_armed_def roll_def randbelow6_def
      always_def choices_def take_dmg_def destroyed_def side_of_def)

section \<open>The initiative tie-break\<close>

























section \<open>Seeds, trial counts and specs in the drivers\<close>

lemma unseeded_runs:
  "win_probability 1 seeded (always F5) sudden_a sudden_b 1 None = Some (Inr 1, always F5)
   \<and> win_probability 1 seeded (feed F0 (always F5)) sudden_a sudden_b 1 None = Some (Inr 0, always F5)"
proof -
  have 1: "simulate_once (Suc 0) sudden_a sudden_b (always F5) =
      \<lparr>outcome = Some 1, ship_a = sudden_a, ship_b = sudden_b\<lparr>hull_pts := 0\<rparr>,
       rng_after = always F5,
       trace = [\<lparr>shooter = A, shooter_hull = 1, weapon_list = Cannons, drawn = [FullHit]\<rparr>]\<rparr>"
    by (simp add: simulate_once_def second_missiles_def cannons_and_verdict_def
        sudden_a_def sudden_b_def roll_def randbelow6_def always_def choices_def
        take_dmg_def destroyed_def side_of_def)
  have 2: "simulate_once (Suc 0) sudden_a sudden_b (feed F0 (always F5)) =
      \<lparr>outcome = Some (- 1), ship_a = sudden_a\<lparr>hull_pts := 0\<rparr>, ship_b = sudden_b,
       rng_after = always F5,
       trace = [\<lparr>shooter = A, shooter_hull = 1, weapon_list = Cannons, drawn = [NoDamage]\<rparr>,
                \<lparr>shooter = B, shooter_hull = 1, weapon_list = Cannons, drawn = [FullHit]\<rparr>]\<rparr>"
    by (simp add: simulate_once_def second_missiles_def cannons_and_verdict_def
        sudden_a_def sudden_b_def roll_def randbelow6_def feed_def always_def choices_def
        take_dmg_def destroyed_def side_of_def)
  show ?thesis by (simp add: win_probability_def 1 2 Let_def)
qed

text \<open>
  C5. With a seed, the result of \<^verbatim>\<open>win_probability\<close> and the state in which it leaves the
  generator do not depend on the state of the generator before the call, for every pair of
  specs, every trial count and every bound on the cannon rounds, in both drivers: two calls
  with identical arguments return the same quotient of the same two integers, or both fail
  to return. Without a seed the result does depend on the state of the generator.
\<close>

theorem C5_seeded_deterministic:
  "win_probability fuel seeded g1 spec_a spec_b simulations (Some s)
     = win_probability fuel seeded g2 spec_a spec_b simulations (Some s)
   \<and> win_probability_py fuel seeded g1 spec_a spec_b simulations (Some s)
     = win_probability_py fuel seeded g2 spec_a spec_b simulations (Some s)
   \<and> win_probability 1 seeded (always F5) sudden_a sudden_b 1 None
     \<noteq> win_probability 1 seeded (feed F0 (always F5)) sudden_a sudden_b 1 None"
proof -
  have 1: "win_probability fuel seeded g1 spec_a spec_b simulations (Some s)
     = win_probability fuel seeded g2 spec_a spec_b simulations (Some s)"
    by (simp add: win_probability_def)
  have 2: "win_probability_py fuel seeded g1 spec_a spec_b simulations (Some s)
     = win_probability_py fuel seeded g2 spec_a spec_b simulations (Some s)"
    by (simp add: win_probability_py_def)
  have 3: "win_probability 1 seeded (always F5) sudden_a sudden_b 1 None
     \<noteq> win_probability 1 seeded (feed F0 (always F5)) sudden_a sudden_b 1 None"
    using unseeded_runs [of seeded] by (simp del: One_nat_def)
  from 1 2 3 show ?thesis by simp
qed

text \<open>
  C7, amended. The drivers do not check the trial count. With a count of 0 no trial runs and
  the final division raises \<^verbatim>\<open>ZeroDivisionError\<close>, after the generator has been seeded.
  With a negative count no trial runs either, and the division returns the quotient of 0 by
  the count: a numeric result and no error.
\<close>

theorem C7_trial_count:
  "win_probability fuel seeded g spec_a spec_b 0 seed
     = Some (Inl ZeroDivisionError, case seed of None \<Rightarrow> g | Some s \<Rightarrow> seeded s)
   \<and> win_probability_py fuel seeded g spec_a spec_b 0 seed
     = Some (Inl ZeroDivisionError, case seed of None \<Rightarrow> g | Some s \<Rightarrow> seeded s)
   \<and> (simulations < 0 \<longrightarrow>
        win_probability fuel seeded g spec_a spec_b simulations seed
          = Some (Inr 0, case seed of None \<Rightarrow> g | Some s \<Rightarrow> seeded s)
        \<and> win_probability_py fuel seeded g spec_a spec_b simulations seed
          = Some (Inr 0, case seed of None \<Rightarrow> g | Some s \<Rightarrow> seeded s))"
  by (simp add: win_probability_def win_probability_py_def)

theorem C7_trial_count_witness:
  "(- 3 :: int) < 0
   \<and> win_probability 2 (\<lambda>s. always F5) (always F0) sudden_a sudden_b (- 3) (Some 7)
        = Some (Inr 0, always F5)
   \<and> win_probability_py 2 (\<lambda>s. always F5) (always F0) sudden_a sudden_b (- 3) (Some 7)
        = Some (Inr 0, always F5)"
  using C7_trial_count [of 2 "\<lambda>s. always F5" "always F0" sudden_a sudden_b "Some 7" "- 3"]
  by simp

text \<open>A call of the plain driver with -1 trials returns a number.\<close>

theorem C7_counterexample:
  "win_probability 1 (\<lambda>s. always F5) (always F0) sudden_a sudden_b (- 1) None
     = Some (Inr 0, always F0)"
  by (simp add: win_probability_def)





section \<open>The roles swapped\<close>

lemma cannon_phase_flip:
  "fst (cannon_phase n (\<not> af) first second g) = fst (cannon_phase n af first second g)
   \<and> fst (snd (cannon_phase n (\<not> af) first second g)) = fst (snd (cannon_phase n af first second g))
   \<and> fst (snd (snd (cannon_phase n (\<not> af) first second g)))
       = fst (snd (snd (cannon_phase n af first second g)))
   \<and> fst (snd (snd (snd (cannon_phase n (\<not> af) first second g))))
       = fst (snd (snd (snd (cannon_phase n af first second g))))"
proof (induction n arbitrary: first second g)
  case 0
  show ?case by (cases af) (simp_all add: conj_commute)
next
  case (Suc n)
  show ?case
  proof (cases "destroyed first \<or> destroyed second")
    case True
    have "cannon_phase (Suc n) (\<not> af) first second g = (True, first, second, g, [])"
      and "cannon_phase (Suc n) af first second g = (True, first, second, g, [])"
      using True by (rule cannon_phase_over)+
    then show ?thesis by simp
  next
    case False
    then have c: "\<not> destroyed first" "\<not> destroyed second" by simp_all
    define second1 where "second1 = fst (fire first second (cannons first) g)"
    define g1 where "g1 = fst (snd (fire first second (cannons first) g))"
    define first1 where "first1 = fst (fire second1 first (cannons second1) g1)"
    define g2 where "g2 = fst (snd (fire second1 first (cannons second1) g1))"
    note ih = Suc.IH [of first1 second1 g2]
    from c ih show ?thesis
      unfolding first1_def g2_def second1_def g1_def
      by (cases af) (simp_all add: case_prod_beta Let_def)
  qed
qed

lemma cannon_phase_left:
  "fst (cannon_phase n af first second g) \<longrightarrow>
     destroyed (fst (snd (cannon_phase n af first second g)))
     \<or> destroyed (fst (snd (snd (cannon_phase n af first second g))))"
proof (induction n arbitrary: first second g)
  case 0
  show ?case by (cases af) auto
next
  case (Suc n)
  show ?case
  proof (cases "destroyed first \<or> destroyed second")
    case True
    have "cannon_phase (Suc n) af first second g = (True, first, second, g, [])"
      using True by (rule cannon_phase_over)
    with True show ?thesis by simp
  next
    case False
    then have c: "\<not> destroyed first" "\<not> destroyed second" by simp_all
    define second1 where "second1 = fst (fire first second (cannons first) g)"
    define g1 where "g1 = fst (snd (fire first second (cannons first) g))"
    define first1 where "first1 = fst (fire second1 first (cannons second1) g1)"
    define g2 where "g2 = fst (snd (fire second1 first (cannons second1) g1))"
    show ?thesis
    proof (cases "destroyed second1")
      case True
      with c show ?thesis
        unfolding second1_def by (simp add: loop_cond case_prod_beta Let_def)
    next
      case d: False
      from Suc.IH [of first1 second1 g2]
      have "\<not> fst (cannon_phase n af first1 second1 g2)
          \<or> destroyed (fst (snd (cannon_phase n af first1 second1 g2)))
          \<or> destroyed (fst (snd (snd (cannon_phase n af first1 second1 g2))))"
        by blast
      with c d show ?thesis
        unfolding first1_def g2_def second1_def g1_def
        by (simp add: loop_cond case_prod_beta Let_def)
    qed
  qed
qed

lemma cannons_and_verdict_flip:
  "outcome (cannons_and_verdict n (\<not> af) first second g)
     = map_option uminus (outcome (cannons_and_verdict n af first second g))
   \<and> rng_after (cannons_and_verdict n (\<not> af) first second g)
     = rng_after (cannons_and_verdict n af first second g)"
proof -
  note f = cannon_phase_flip [of n af first second g]
  have "\<not> fst (cannon_phase n af first second g)
      \<or> destroyed (fst (snd (cannon_phase n af first second g)))
      \<or> destroyed (fst (snd (snd (cannon_phase n af first second g))))"
    using cannon_phase_left [of n af first second g] by blast
  with f show ?thesis
    by (cases af) (auto simp add: cannons_and_verdict_def case_prod_beta Let_def)
qed

lemma second_missiles_flip:
  "outcome (second_missiles n (\<not> af) first second g)
     = map_option uminus (outcome (second_missiles n af first second g))
   \<and> rng_after (second_missiles n (\<not> af) first second g)
     = rng_after (second_missiles n af first second g)"
  by (simp add: second_missiles_def case_prod_beta logged_def early_return_def
      cannons_and_verdict_flip)

lemma uminus_twice: "map_option uminus (map_option uminus x) = (x :: int option)"
  by (cases x) simp_all

lemma simulate_once_swap:
  assumes "initiative a \<noteq> initiative b"
  shows "outcome (simulate_once n b a g) = map_option uminus (outcome (simulate_once n a b g))
       \<and> rng_after (simulate_once n b a g) = rng_after (simulate_once n a b g)"
proof (cases "initiative a > initiative b")
  case True
  then have "\<not> initiative b > initiative a" by simp
  with True second_missiles_flip [of n False] show ?thesis
    by (simp add: simulate_once_def case_prod_beta logged_def early_return_def uminus_twice)
next
  case False
  with assms have "initiative b > initiative a" by simp
  with False second_missiles_flip [of n False] show ?thesis
    by (simp add: simulate_once_def case_prod_beta logged_def early_return_def uminus_twice)
qed

lemma cannons_and_verdict_range:
  "outcome (cannons_and_verdict n af first second g) = Some oc \<Longrightarrow> oc = 0 \<or> oc = 1 \<or> oc = - 1"
  by (auto simp add: cannons_and_verdict_def case_prod_beta Let_def split: if_splits)

lemma second_missiles_range:
  "outcome (second_missiles n af first second g) = Some oc \<Longrightarrow> oc = 0 \<or> oc = 1 \<or> oc = - 1"
  by (auto simp add: second_missiles_def case_prod_beta logged_def early_return_def
      split: if_splits dest: cannons_and_verdict_range)

lemma simulate_once_range:
  "outcome (simulate_once n a b g) = Some oc \<Longrightarrow> oc = 0 \<or> oc = 1 \<or> oc = - 1"
  by (auto simp add: simulate_once_def Let_def case_prod_beta logged_def early_return_def
      split: if_splits dest: second_missiles_range)

lemma trials_swap:
  assumes "initiative a \<noteq> initiative b" "0 < hull_pts a" "0 < hull_pts b"
  shows "trials fuel k b a g v =
     (case trials fuel k a b g w of
        None \<Rightarrow> None
      | Some (w', g') \<Rightarrow> Some (v + int k - (w' - w), g'))"
proof (induction k arbitrary: g v w)
  case 0
  show ?case by simp
next
  case (Suc k)
  note s = simulate_once_swap [OF assms(1), of fuel g]
  show ?case
  proof (cases "outcome (simulate_once fuel a b g)")
    case None
    with s show ?thesis by simp
  next
    case (Some oc)
    from assms(2,3) have "outcome (simulate_once fuel a b g) \<noteq> Some 0"
      by (simp add: simulate_once_draw)
    with Some simulate_once_range [OF Some] have oc: "oc = 1 \<or> oc = - 1" by auto
    from s Some have o': "outcome (simulate_once fuel b a g) = Some (- oc)"
      and g': "rng_after (simulate_once fuel b a g) = rng_after (simulate_once fuel a b g)"
      by simp_all
    from oc show ?thesis
    proof
      assume "oc = 1"
      with Some o' g'
        Suc.IH [of "rng_after (simulate_once fuel a b g)" v "w + 1"]
      show ?thesis by (simp add: Let_def split: option.splits)
    next
      assume "oc = - 1"
      with Some o' g'
        Suc.IH [of "rng_after (simulate_once fuel a b g)" "v + 1" w]
      show ?thesis by (simp add: Let_def split: option.splits)
    qed
  qed
qed

text \<open>
  C6. For specs whose hull is positive and whose initiatives differ, and a positive trial
  count, the plain driver called with the roles swapped runs the same trials: the same ship
  fires first, every roll is drawn at the same point, each trial is won by the other side
  and none is drawn. So the swapped call returns exactly when the original call does, leaves
  the generator in the same state, and the two results add up to 1. The quotients are exact
  rationals here.
\<close>

theorem C6_symmetry:
  assumes "0 < hull_pts a" "0 < hull_pts b" "initiative a \<noteq> initiative b" "0 < n"
  shows "win_probability fuel seeded g b a n seed =
           map_option (\<lambda>(r, g'). (case r of Inl e \<Rightarrow> Inl e | Inr p \<Rightarrow> Inr (1 - p), g'))
             (win_probability fuel seeded g a b n seed)
       \<and> (win_probability fuel seeded g a b n seed = Some (Inr p, g') \<longrightarrow>
            (\<exists>q. win_probability fuel seeded g b a n seed = Some (Inr q, g') \<and> p + q = 1))"
proof -
  define g0 where "g0 = (case seed of None \<Rightarrow> g | Some s \<Rightarrow> seeded s)"
  from assms(4) have nz: "n \<noteq> 0" by simp
  have sw: "trials fuel (nat n) b a g0 0 =
     (case trials fuel (nat n) a b g0 0 of
        None \<Rightarrow> None
      | Some (w', g') \<Rightarrow> Some (n - w', g'))"
    using trials_swap [OF assms(3,1,2), of fuel "nat n" g0 0 0] assms(4)
    by (cases "trials fuel (nat n) a b g0 0") auto
  have 1: "win_probability fuel seeded g b a n seed =
           map_option (\<lambda>(r, g'). (case r of Inl e \<Rightarrow> Inl e | Inr p \<Rightarrow> Inr (1 - p), g'))
             (win_probability fuel seeded g a b n seed)"
    unfolding win_probability_def Let_def g0_def [symmetric] sw
    using nz by (cases "trials fuel (nat n) a b g0 0") (auto simp add: diff_divide_distrib)
  have 2: "\<exists>q. win_probability fuel seeded g b a n seed = Some (Inr q, g') \<and> p + q = 1"
    if "win_probability fuel seeded g a b n seed = Some (Inr p, g')"
    unfolding 1 that by simp
  from 1 2 show ?thesis by blast
qed

text \<open>
  Two trials of the first scenario, the first won by B and the second by A: either call
  returns 1/2.
\<close>

theorem C6_symmetry_witness:
  "0 < hull_pts sudden_a \<and> 0 < hull_pts sudden_b \<and> initiative sudden_a \<noteq> initiative sudden_b
   \<and> (0::int) < 2
   \<and> win_probability 1 (\<lambda>s. feed F0 (always F5)) (always F0) sudden_a sudden_b 2 (Some 7)
       = Some (Inr (1 / 2), always F5)
   \<and> win_probability 1 (\<lambda>s. feed F0 (always F5)) (always F0) sudden_b sudden_a 2 (Some 7)
       = Some (Inr (1 / 2), always F5)"
proof -
  have h: "0 < hull_pts sudden_a" "0 < hull_pts sudden_b" "initiative sudden_a \<noteq> initiative sudden_b"
    "(0::int) < 2"
    by (simp_all add: sudden_a_def sudden_b_def)
  have 1: "simulate_once (Suc 0) sudden_a sudden_b (always F5) =
      \<lparr>outcome = Some 1, ship_a = sudden_a, ship_b = sudden_b\<lparr>hull_pts := 0\<rparr>,
       rng_after = always F5,
       trace = [\<lparr>shooter = A, shooter_hull = 1, weapon_list = Cannons, drawn = [FullHit]\<rparr>]\<rparr>"
    by (simp add: simulate_once_def second_missiles_def cannons_and_verdict_def
        sudden_a_def sudden_b_def roll_def randbelow6_def always_def choices_def
        take_dmg_def destroyed_def side_of_def)
  have 2: "simulate_once (Suc 0) sudden_a sudden_b (feed F0 (always F5)) =
      \<lparr>outcome = Some (- 1), ship_a = sudden_a\<lparr>hull_pts := 0\<rparr>, ship_b = sudden_b,
       rng_after = always F5,
       trace = [\<lparr>shooter = A, shooter_hull = 1, weapon_list = Cannons, drawn = [NoDamage]\<rparr>,
                \<lparr>shooter = B, shooter_hull = 1, weapon_list = Cannons, drawn = [FullHit]\<rparr>]\<rparr>"
    by (simp add: simulate_once_def second_missiles_def cannons_and_verdict_def
        sudden_a_def sudden_b_def roll_def randbelow6_def feed_def always_def choices_def
        take_dmg_def destroyed_def side_of_def)
  have ab: "win_probability 1 (\<lambda>s. feed F0 (always F5)) (always F0) sudden_a sudden_b 2 (Some 7)
       = Some (Inr (1 / 2), always F5)"
    by (simp add: win_probability_def 1 2 Let_def numeral_2_eq_2)
  from C6_symmetry [OF h, of 1 "\<lambda>s. feed F0 (always F5)" "always F0" "Some 7"]
  have "win_probability 1 (\<lambda>s. feed F0 (always F5)) (always F0) sudden_b sudden_a 2 (Some 7) =
           map_option (\<lambda>(r, g'). (case r of Inl e \<Rightarrow> Inl e | Inr p \<Rightarrow> Inr (1 - p), g'))
             (win_probability 1 (\<lambda>s. feed F0 (always F5)) (always F0) sudden_a sudden_b 2 (Some 7))"
    by (rule conjunct1)
  then have ba: "win_probability 1 (\<lambda>s. feed F0 (always F5)) (always F0) sudden_b sudden_a 2 (Some 7)
       = Some (Inr (1 / 2), always F5)"
    unfolding ab by simp
  from h ab ba show ?thesis by (simp only: simp_thms)
qed

section \<open>The probability of a win in the first scenario\<close>

lemma expect_const: "expect k (\<lambda>t. c) g = c"
  by (induction k) (simp_all add: faces_def)

lemma sudden_round:
  "outcome (simulate_once (Suc n) sudden_a sudden_b (feed d1 (feed d2 t))) =
     (if d1 = F4 \<or> d1 = F5 then Some 1
      else if d2 = F5 then Some (- 1)
      else outcome (simulate_once n sudden_a sudden_b t))"
proof -
  have over: "cannon_phase n True (sudden_a\<lparr>hull_pts := 0\<rparr>) sudden_b t
      = (True, sudden_a\<lparr>hull_pts := 0\<rparr>, sudden_b, t, [])"
    by (rule cannon_phase_over) (simp add: destroyed_def)
  show ?thesis
    by (cases d1; cases d2)
      (simp_all add: simulate_once_def second_missiles_def cannons_and_verdict_def
        sudden_a_def sudden_b_def roll_def randbelow6_def feed_def choices_def
        take_dmg_def destroyed_def side_of_def case_prod_beta Let_def
        over [unfolded sudden_a_def sudden_b_def, simplified])
qed

lemma sudden_start: "outcome (simulate_once 0 sudden_a sudden_b t) = None"
  by (simp add: simulate_once_def second_missiles_def cannons_and_verdict_def
      sudden_a_def sudden_b_def destroyed_def)

lemma expect_round:
  assumes "\<And>d1 d2 t. f (feed d1 (feed d2 t)) =
      (if d1 = F4 \<or> d1 = F5 then a else if d2 = F5 then b else h t)"
  shows "expect (Suc (Suc k)) f g = a / 3 + b / 9 + 5 / 9 * expect k h g"
  by (simp add: assms faces_def expect_const field_simps)

lemma win_step:
  "expect (2 * Suc n) (\<lambda>t. if outcome (simulate_once (Suc n) sudden_a sudden_b t) = Some 1 then 1 else 0) g
     = 1 / 3 + 5 / 9 *
       expect (2 * n) (\<lambda>t. if outcome (simulate_once n sudden_a sudden_b t) = Some 1 then 1 else 0) g"
proof -
  have "expect (Suc (Suc (2 * n)))
      (\<lambda>t. if outcome (simulate_once (Suc n) sudden_a sudden_b t) = Some 1 then 1 else 0) g
     = 1 / 3 + 0 / 9 + 5 / 9 *
       expect (2 * n) (\<lambda>t. if outcome (simulate_once n sudden_a sudden_b t) = Some 1 then 1 else 0) g"
    by (rule expect_round) (simp add: sudden_round)
  then show ?thesis by simp
qed

lemma running_step:
  "expect (2 * Suc n) (\<lambda>t. if outcome (simulate_once (Suc n) sudden_a sudden_b t) = None then 1 else 0) g
     = 5 / 9 *
       expect (2 * n) (\<lambda>t. if outcome (simulate_once n sudden_a sudden_b t) = None then 1 else 0) g"
proof -
  have "expect (Suc (Suc (2 * n)))
      (\<lambda>t. if outcome (simulate_once (Suc n) sudden_a sudden_b t) = None then 1 else 0) g
     = 0 / 3 + 0 / 9 + 5 / 9 *
       expect (2 * n) (\<lambda>t. if outcome (simulate_once n sudden_a sudden_b t) = None then 1 else 0) g"
    by (rule expect_round) (simp add: sudden_round)
  then show ?thesis by simp
qed

lemma win_closed:
  "expect (2 * n) (\<lambda>t. if outcome (simulate_once n sudden_a sudden_b t) = Some 1 then 1 else 0) g
     = 3 / 4 * (1 - (5 / 9) ^ n)"
proof (induction n)
  case 0
  show ?case by (simp add: sudden_start)
next
  case (Suc n)
  show ?case unfolding win_step Suc.IH by (simp add: field_simps)
qed

lemma running_closed:
  "expect (2 * n) (\<lambda>t. if outcome (simulate_once n sudden_a sudden_b t) = None then 1 else 0) g
     = (5 / 9) ^ n"
proof (induction n)
  case 0
  show ?case by (simp add: sudden_start)
next
  case (Suc n)
  show ?case unfolding running_step Suc.IH by simp
qed

text \<open>
  C2. In the first scenario of the test file A (initiative 5, computer 2) fires first and
  hits on two of the six outcomes, B (computer 1) hits on one. Under independent uniform
  draws the probability that the plain resolver has returned 1 within \<open>n\<close> cannon rounds is
  \<open>3/4 * (1 - (5/9)^n)\<close>, and the probability that it is still running after \<open>n\<close> rounds is
  \<open>(5/9)^n\<close>. So the resolver returns with probability 1, and it returns a win for A with
  probability exactly 3/4.
\<close>

theorem C2_sudden_death:
  "expect (2 * n) (\<lambda>t. if outcome (simulate_once n sudden_a sudden_b t) = Some 1 then 1 else 0) g
     = 3 / 4 * (1 - (5 / 9) ^ n)
   \<and> expect (2 * n) (\<lambda>t. if outcome (simulate_once n sudden_a sudden_b t) = None then 1 else 0) g
     = (5 / 9) ^ n
   \<and> (\<lambda>n. expect (2 * n)
        (\<lambda>t. if outcome (simulate_once n sudden_a sudden_b t) = Some 1 then 1 else 0) g)
       \<longlonglongrightarrow> 3 / 4
   \<and> (\<lambda>n. expect (2 * n)
        (\<lambda>t. if outcome (simulate_once n sudden_a sudden_b t) = None then 1 else 0) g)
       \<longlonglongrightarrow> 0"
proof -
  have p: "(\<lambda>n. (5 / 9 :: real) ^ n) \<longlonglongrightarrow> 0"
    by (rule LIMSEQ_realpow_zero) simp_all
  have "(\<lambda>n. 1 - (5 / 9 :: real) ^ n) \<longlonglongrightarrow> 1 - 0"
    by (rule tendsto_diff [OF tendsto_const p])
  then have "(\<lambda>n. 3 / 4 * (1 - (5 / 9 :: real) ^ n)) \<longlonglongrightarrow> 3 / 4 * (1 - 0)"
    by (rule tendsto_mult [OF tendsto_const])
  then have w: "(\<lambda>n. 3 / 4 * (1 - (5 / 9 :: real) ^ n)) \<longlonglongrightarrow> 3 / 4"
    by simp
  have 3: "(\<lambda>n. expect (2 * n)
        (\<lambda>t. if outcome (simulate_once n sudden_a sudden_b t) = Some 1 then 1 else 0) g)
       \<longlonglongrightarrow> 3 / 4"
    unfolding win_closed by (rule w)
  have 4: "(\<lambda>n. expect (2 * n)
        (\<lambda>t. if outcome (simulate_once n sudden_a sudden_b t) = None then 1 else 0) g)
       \<longlonglongrightarrow> 0"
    unfolding running_closed by (rule p)
  from win_closed [of n g] running_closed [of n g] 3 4 show ?thesis
    by (intro conjI)
qed

end
